theory Spec2Isabelle
  imports Main "HOL-Library.Word" "HOL-Library.Signed_Division"
begin

unbundle bit_operations_syntax

section \<open>The HT16K33 driver: data model\<close>

text \<open>
  The model follows the driver with the map-based font, the private helper
  \<open>setPattern\<close> and the non-blocking fade (\<open>StartFade\<close>, \<open>UpdateFade\<close>).

  Go's \<open>byte\<close>/\<open>uint8\<close> is an 8-bit word and \<open>uint16\<close> a 16-bit word. Go's \<open>int\<close>
  is modelled as \<open>int\<close>: the driver only compares such values, multiplies a
  checked display index by 8 and counts a fade step between -1 and 256, so no
  \<open>int\<close> operation of the driver can overflow. A \<open>rune\<close> is a code point.
  Times and durations are integers (nanoseconds).
\<close>

type_synonym byte = "8 word"
type_synonym rune = int

definition ht16k33TurnOnOscillator :: byte where
  "ht16k33TurnOnOscillator = 0x21"

definition ht16k33TurnOnDisplay :: byte where
  "ht16k33TurnOnDisplay = 0x81"

definition ht16k33SetBrightness :: byte where
  "ht16k33SetBrightness = 0xE0"

definition MaxDigitsPerDisplay :: int where
  "MaxDigitsPerDisplay = 8"

definition NumDisplays :: int where
  "NumDisplays = 2"

definition blankPatternIndex :: byte where
  "blankPatternIndex = 10"

datatype fadeState = fadeStateIdle | fadeStateOut | fadeStateIn

text \<open>
  The font: a Go map from rune to the segment pattern (bits g-f-e-d-c-b-a).
  Keys are code points; the character is given beside each entry.
\<close>

definition font :: "rune \<rightharpoonup> byte" where
  "font = map_of
    [(48, 0x3F),  \<comment> \<open>0\<close>
     (49, 0x06),  \<comment> \<open>1\<close>
     (50, 0x5B),  \<comment> \<open>2\<close>
     (51, 0x4F),  \<comment> \<open>3\<close>
     (52, 0x66),  \<comment> \<open>4\<close>
     (53, 0x6D),  \<comment> \<open>5\<close>
     (54, 0x7D),  \<comment> \<open>6\<close>
     (55, 0x07),  \<comment> \<open>7\<close>
     (56, 0x7F),  \<comment> \<open>8\<close>
     (57, 0x6F),  \<comment> \<open>9\<close>
     (65, 0x77),  \<comment> \<open>A\<close>
     (66, 0x7C),  \<comment> \<open>B\<close>
     (67, 0x39),  \<comment> \<open>C\<close>
     (68, 0x5E),  \<comment> \<open>D\<close>
     (69, 0x79),  \<comment> \<open>E\<close>
     (70, 0x71),  \<comment> \<open>F\<close>
     (71, 0x3D),  \<comment> \<open>G\<close>
     (72, 0x76),  \<comment> \<open>H\<close>
     (73, 0x06),  \<comment> \<open>I\<close>
     (74, 0x1E),  \<comment> \<open>J\<close>
     (76, 0x38),  \<comment> \<open>L\<close>
     (79, 0x3F),  \<comment> \<open>O\<close>
     (80, 0x73),  \<comment> \<open>P\<close>
     (81, 0x67),  \<comment> \<open>Q\<close>
     (82, 0x50),  \<comment> \<open>R\<close>
     (83, 0x6D),  \<comment> \<open>S\<close>
     (85, 0x3E),  \<comment> \<open>U\<close>
     (89, 0x6E),  \<comment> \<open>Y\<close>
     (32, 0x00),  \<comment> \<open>space\<close>
     (45, 0x40),  \<comment> \<open>minus\<close>
     (95, 0x08),  \<comment> \<open>underscore\<close>
     (39, 0x02),  \<comment> \<open>apostrophe\<close>
     (34, 0x22),  \<comment> \<open>double quote\<close>
     (61, 0x48),  \<comment> \<open>equals\<close>
     (63, 0x53)   \<comment> \<open>question mark\<close>
    ]"

subsection \<open>The bus\<close>

text \<open>
  \<open>I2CBus\<close> is an interface with the one method \<open>Tx(addr, w, r) error\<close>. The
  driver always passes \<open>nil\<close> for \<open>r\<close>. A bus is modelled by the writes it has
  received, in order, and by what it answers: \<open>reply\<close> maps the writes received
  so far (the current one last) to \<open>None\<close> (Go's \<open>nil\<close> error) or to an error.
\<close>

datatype tx_error = TxError

type_synonym tx = "16 word \<times> byte list"

record I2CBus =
  sent :: "tx list"
  reply :: "tx list \<Rightarrow> tx_error option"

definition Tx :: "I2CBus \<Rightarrow> 16 word \<Rightarrow> byte list \<Rightarrow> I2CBus \<times> tx_error option" where
  "Tx b addr w = (let s = sent b @ [(addr, w)] in (b\<lparr>sent := s\<rparr>, reply b s))"

subsection \<open>The device\<close>

text \<open>
  \<open>buffer\<close> is the array \<open>[16]byte\<close>: a list whose length is 16 in every device
  made by \<open>New\<close>.
\<close>

record Device =
  bus :: I2CBus
  Address :: byte
  buffer :: "byte list"
  currentBrightness :: byte
  fadeState :: fadeState
  fadeStep :: int
  lastUpdateTime :: int
  fadeDelay :: int

definition New :: "I2CBus \<Rightarrow> byte \<Rightarrow> Device" where
  "New b address =
     \<lparr>bus = b, Address = address, buffer = replicate 16 0, currentBrightness = 15,
      fadeState = fadeStateIdle, fadeStep = 0, lastUpdateTime = 0, fadeDelay = 0\<rparr>"

section \<open>Bus operations\<close>

text \<open>
  Each of these Go methods has no result, and the error that \<open>Tx\<close> returns is
  dropped at the call: the model keeps the bus after the write (\<open>fst\<close>).
\<close>

definition SetBrightness :: "Device \<Rightarrow> byte \<Rightarrow> Device" where
  "SetBrightness d brightness =
     (let brightness = (if brightness > 15 then 15 else brightness);
          d = d\<lparr>currentBrightness := brightness\<rparr>
      in d\<lparr>bus := fst (Tx (bus d) (ucast (Address d)) [ht16k33SetBrightness OR brightness])\<rparr>)"

definition Display :: "Device \<Rightarrow> Device" where
  "Display d =
     (let data = [0x00] @ buffer d
      in d\<lparr>bus := fst (Tx (bus d) (ucast (Address d)) data)\<rparr>)"

definition Configure :: "Device \<Rightarrow> Device" where
  "Configure d =
     (let d = d\<lparr>bus := fst (Tx (bus d) (ucast (Address d)) [ht16k33TurnOnOscillator])\<rparr>;
          d = d\<lparr>bus := fst (Tx (bus d) (ucast (Address d)) [ht16k33TurnOnDisplay])\<rparr>
      in SetBrightness d 15)"

section \<open>Buffer operations\<close>

definition ClearAll :: "Device \<Rightarrow> Device" where
  "ClearAll d =
     d\<lparr>buffer := fold (\<lambda>i b. b[i := 0]) [0..<length (buffer d)] (buffer d)\<rparr>"

definition LightUpAll :: "Device \<Rightarrow> Device" where
  "LightUpAll d =
     d\<lparr>buffer := fold (\<lambda>i b. b[i := 0xFF]) [0..<length (buffer d)] (buffer d)\<rparr>"

text \<open>
  The three steps that \<open>SetDigitOnDisplay\<close> and \<open>setPattern\<close> both run after
  their bounds check: clear bit \<open>position\<close> in the eight rows of the display,
  set it in the rows of the segments that \<open>pattern\<close> lights, set it in the dot
  row. \<open>1 << position\<close> is a byte.
\<close>

definition storeRows :: "byte list \<Rightarrow> nat \<Rightarrow> nat \<Rightarrow> byte \<Rightarrow> bool \<Rightarrow> byte list" where
  "storeRows buf rowOffset position pattern dot =
     (let mask = NOT (push_bit position (1 :: byte));
          buf = fold (\<lambda>i b. b[rowOffset + i := b ! (rowOffset + i) AND mask]) [0..<8] buf;
          buf = fold (\<lambda>seg b.
                   if drop_bit seg pattern AND 1 = 1
                   then b[rowOffset + seg := b ! (rowOffset + seg) OR push_bit position 1]
                   else b) [0..<7] buf
      in if dot
         then (let dotRow = rowOffset + 7
               in buf[dotRow := buf ! dotRow OR push_bit position 1])
         else buf)"

definition setPattern :: "Device \<Rightarrow> int \<Rightarrow> int \<Rightarrow> byte \<Rightarrow> bool \<Rightarrow> Device" where
  "setPattern d display position pattern dot =
     (if display < 0 \<or> display \<ge> NumDisplays \<or> position < 0 \<or> position \<ge> MaxDigitsPerDisplay
      then d
      else let rowOffset = display * MaxDigitsPerDisplay
           in d\<lparr>buffer := storeRows (buffer d) (nat rowOffset) (nat position) pattern dot\<rparr>)"

text \<open>
  \<open>SetDigitOnDisplay\<close> takes a number, not a pattern: it looks
  \<open>rune('0' + num)\<close> up in the font, the sum being a byte sum, and a missing
  key gives the zero pattern.
\<close>

definition SetDigitOnDisplay :: "Device \<Rightarrow> int \<Rightarrow> int \<Rightarrow> byte \<Rightarrow> bool \<Rightarrow> Device" where
  "SetDigitOnDisplay d display position num dot =
     (if display < 0 \<or> display \<ge> NumDisplays \<or> position < 0 \<or> position \<ge> MaxDigitsPerDisplay
      then d
      else let char = uint (48 + num);
               pattern = (case font char of Some p \<Rightarrow> p | None \<Rightarrow> 0);
               rowOffset = display * MaxDigitsPerDisplay
           in d\<lparr>buffer := storeRows (buffer d) (nat rowOffset) (nat position) pattern dot\<rparr>)"

text \<open>Go's \<open>/\<close> and \<open>%\<close> on \<open>int\<close> truncate towards zero: \<open>sdiv\<close> and \<open>smod\<close>.\<close>

definition SetDigit16 :: "Device \<Rightarrow> int \<Rightarrow> byte \<Rightarrow> bool \<Rightarrow> Device" where
  "SetDigit16 d position num dot =
     (if position < 0 \<or> position \<ge> MaxDigitsPerDisplay * NumDisplays
      then d
      else let display = position sdiv MaxDigitsPerDisplay;
               digitInDisplay = position smod MaxDigitsPerDisplay
           in SetDigitOnDisplay d display digitInDisplay num dot)"

definition ClearOnDisplay :: "Device \<Rightarrow> int \<Rightarrow> Device" where
  "ClearOnDisplay d display =
     (if display < 0 \<or> display \<ge> NumDisplays
      then d
      else fold (\<lambda>pos d. SetDigitOnDisplay d display (int pos) blankPatternIndex False)
             [0..<8] d)"

text \<open>
  \<open>WriteString\<close>: the argument \<open>runes\<close> is \<open>[]rune(s)\<close>. The loop runs on the
  index \<open>i\<close> and the slot \<open>digitPos\<close>; a dot after a known character is taken
  with it (\<open>i\<close> skips it).
\<close>

function writeLoop :: "Device \<Rightarrow> int \<Rightarrow> rune list \<Rightarrow> nat \<Rightarrow> int \<Rightarrow> Device" where
  "writeLoop d display runes i digitPos =
     (if i < length runes \<and> digitPos < MaxDigitsPerDisplay
      then (let char = runes ! i;
                char = (if char \<ge> 97 \<and> char \<le> 122 then char - 97 + 65 else char)
            in case font char of
                 Some pattern \<Rightarrow>
                   (if i + 1 < length runes \<and> runes ! (i + 1) = 46
                    then writeLoop (setPattern d display digitPos pattern True)
                           display runes (i + 1 + 1) (digitPos + 1)
                    else writeLoop (setPattern d display digitPos pattern False)
                           display runes (i + 1) (digitPos + 1))
               | None \<Rightarrow> writeLoop d display runes (i + 1) digitPos)
      else d)"
  by pat_completeness auto
termination
  by (relation "measure (\<lambda>(d, display, runes, i, digitPos). length runes - i)") auto

declare writeLoop.simps [simp del]

definition WriteString :: "Device \<Rightarrow> int \<Rightarrow> rune list \<Rightarrow> Device" where
  "WriteString d display runes =
     (if display < 0 \<or> display \<ge> NumDisplays
      then d
      else writeLoop (ClearOnDisplay d display) display runes 0 0)"

section \<open>Fades\<close>

text \<open>
  \<open>time.Sleep\<close> changes nothing in the device and is left out; the \<open>delay\<close>
  argument of the blocking functions is kept.
\<close>

function fadeOutLoop :: "Device \<Rightarrow> int \<Rightarrow> Device" where
  "fadeOutLoop d i = (if i \<ge> 0 then fadeOutLoop (SetBrightness d (of_int i)) (i - 1) else d)"
  by pat_completeness auto
termination
  by (relation "measure (\<lambda>(d, i). nat (i + 1))") auto

declare fadeOutLoop.simps [simp del]

function fadeInLoop :: "Device \<Rightarrow> int \<Rightarrow> Device" where
  "fadeInLoop d i = (if i \<le> 15 then fadeInLoop (SetBrightness d (of_int i)) (i + 1) else d)"
  by pat_completeness auto
termination
  by (relation "measure (\<lambda>(d, i). nat (16 - i))") auto

declare fadeInLoop.simps [simp del]

definition LightUpAllFadeBlocking :: "Device \<Rightarrow> int \<Rightarrow> Device" where
  "LightUpAllFadeBlocking d delay = fadeInLoop (LightUpAll d) 0"

definition DisplayFadeBlocking :: "Device \<Rightarrow> int \<Rightarrow> Device" where
  "DisplayFadeBlocking d delay =
     (let d = fadeOutLoop d (uint (currentBrightness d));
          d = Display d;
          d = fadeInLoop d 0
      in SetBrightness d 15)"

definition ClearFadeOnDisplayBlocking :: "Device \<Rightarrow> int \<Rightarrow> int \<Rightarrow> Device" where
  "ClearFadeOnDisplayBlocking d display delay =
     (if display < 0 \<or> display \<ge> NumDisplays
      then d
      else DisplayFadeBlocking (ClearOnDisplay d display) delay)"

definition ClearAllFadeBlocking :: "Device \<Rightarrow> int \<Rightarrow> Device" where
  "ClearAllFadeBlocking d delay = DisplayFadeBlocking (ClearAll d) delay"

definition IsFading :: "Device \<Rightarrow> bool" where
  "IsFading d = (fadeState d \<noteq> fadeStateIdle)"

text \<open>
  The clock is an input: \<open>StartFade\<close> reads \<open>time.Now()\<close> once (\<open>now\<close>);
  \<open>UpdateFade\<close> reads it twice, in \<open>time.Since\<close> (\<open>now\<close>) and when it stores the
  new \<open>lastUpdateTime\<close> (\<open>stamp\<close>).
\<close>

definition StartFade :: "Device \<Rightarrow> int \<Rightarrow> int \<Rightarrow> Device" where
  "StartFade d delay now =
     (if fadeState d \<noteq> fadeStateIdle
      then d
      else d\<lparr>fadeDelay := delay, fadeState := fadeStateOut,
             fadeStep := uint (currentBrightness d), lastUpdateTime := now\<rparr>)"

definition UpdateFade :: "Device \<Rightarrow> int \<Rightarrow> int \<Rightarrow> Device \<times> bool" where
  "UpdateFade d now stamp =
     (if fadeState d = fadeStateIdle \<or> now - lastUpdateTime d < fadeDelay d
      then (d, IsFading d)
      else let d = d\<lparr>lastUpdateTime := stamp\<rparr>;
               d = (case fadeState d of
                      fadeStateOut \<Rightarrow>
                        (let d = SetBrightness d (of_int (fadeStep d));
                             d = d\<lparr>fadeStep := fadeStep d - 1\<rparr>
                         in if fadeStep d < 0
                            then (let d = Display d;
                                      d = d\<lparr>fadeState := fadeStateIn\<rparr>
                                  in d\<lparr>fadeStep := 0\<rparr>)
                            else d)
                    | fadeStateIn \<Rightarrow>
                        (let d = SetBrightness d (of_int (fadeStep d));
                             d = d\<lparr>fadeStep := fadeStep d + 1\<rparr>
                         in if fadeStep d > 15
                            then d\<lparr>fadeState := fadeStateIdle\<rparr>
                            else d)
                    | fadeStateIdle \<Rightarrow> d)
           in (d, IsFading d))"

section \<open>Vocabulary of the properties\<close>

text \<open>The two payloads that reach the bus after \<open>Configure\<close>.\<close>

definition brightnessCmd :: "byte \<Rightarrow> byte \<Rightarrow> tx" where
  "brightnessCmd address level =
     (ucast address, [ht16k33SetBrightness OR (if level > 15 then 15 else level)])"

definition flushCmd :: "byte \<Rightarrow> byte list \<Rightarrow> tx" where
  "flushCmd address buf = (ucast address, 0x00 # buf)"

definition brightnessWrites :: "byte \<Rightarrow> nat list \<Rightarrow> tx list" where
  "brightnessWrites address levels = map (\<lambda>k. brightnessCmd address (of_nat k)) levels"

text \<open>
  A write of \<open>Display\<close> starts with the display-RAM address byte \<open>0x00\<close>; no
  command byte of the driver is \<open>0x00\<close>.
\<close>

definition isDisplayWrite :: "tx \<Rightarrow> bool" where
  "isDisplayWrite t = (case snd t of [] \<Rightarrow> False | r # _ \<Rightarrow> r = 0x00)"

text \<open>Everything in a device but its bus.\<close>

definition deviceState ::
  "Device \<Rightarrow> byte \<times> byte list \<times> byte \<times> fadeState \<times> int \<times> int \<times> int" where
  "deviceState d =
     (Address d, buffer d, currentBrightness d, fadeState d, fadeStep d,
      lastUpdateTime d, fadeDelay d)"

definition withReply :: "Device \<Rightarrow> (tx list \<Rightarrow> tx_error option) \<Rightarrow> Device" where
  "withReply d r = d\<lparr>bus := (bus d)\<lparr>reply := r\<rparr>\<rparr>"

text \<open>A bus that accepts every write, and one that fails every write.\<close>

definition goodBus :: I2CBus where
  "goodBus = \<lparr>sent = [], reply = (\<lambda>s. None)\<rparr>"

definition deadBus :: I2CBus where
  "deadBus = \<lparr>sent = [], reply = (\<lambda>s. Some TxError)\<rparr>"

text \<open>
  The polling loop of the non-blocking fade: one \<open>UpdateFade\<close> per pair of clock
  readings. \<open>spaced delay prev ticks\<close>: each call finds at least \<open>delay\<close> elapsed
  since the time stored by the step before it.
\<close>

fun updates :: "Device \<Rightarrow> (int \<times> int) list \<Rightarrow> Device" where
  "updates d [] = d"
| "updates d ((now, stamp) # ticks) = updates (fst (UpdateFade d now stamp)) ticks"

fun spaced :: "int \<Rightarrow> int \<Rightarrow> (int \<times> int) list \<Rightarrow> bool" where
  "spaced delay prev [] = True"
| "spaced delay prev ((now, stamp) # ticks) =
     (now - prev \<ge> delay \<and> spaced delay stamp ticks)"

text \<open>
  The value one row gets from \<open>storeRows\<close>: \<open>k\<close> is the row within the display,
  \<open>x\<close> the row before.
\<close>

definition rowval :: "nat \<Rightarrow> byte \<Rightarrow> bool \<Rightarrow> nat \<Rightarrow> byte \<Rightarrow> byte" where
  "rowval position pattern dot k x =
     (if (k < 7 \<and> bit pattern k) \<or> (k = 7 \<and> dot)
      then (x AND NOT (push_bit position 1)) OR push_bit position 1
      else x AND NOT (push_bit position 1))"

text \<open>The pattern that \<open>SetDigitOnDisplay\<close> draws for the number \<open>num\<close>.\<close>

definition digitPattern :: "byte \<Rightarrow> byte" where
  "digitPattern num = (case font (uint (48 + num)) of Some p \<Rightarrow> p | None \<Rightarrow> 0)"

text \<open>\<open>[]rune(s)\<close> for a string of ASCII characters: one rune per byte.\<close>

definition asciiRunes :: "string \<Rightarrow> rune list" where
  "asciiRunes s = map of_char s"

text \<open>
  The writes of one \<open>DisplayFadeBlocking\<close> call: those before its buffer write,
  and those after it.
\<close>

definition fadeOutWrites :: "Device \<Rightarrow> int \<Rightarrow> tx list" where
  "fadeOutWrites d delay =
     takeWhile (\<lambda>t. \<not> isDisplayWrite t)
       (drop (length (sent (bus d))) (sent (bus (DisplayFadeBlocking d delay))))"

definition fadeInWrites :: "Device \<Rightarrow> int \<Rightarrow> tx list" where
  "fadeInWrites d delay =
     tl (dropWhile (\<lambda>t. \<not> isDisplayWrite t)
       (drop (length (sent (bus d))) (sent (bus (DisplayFadeBlocking d delay)))))"

text \<open>
  The fields that the brightness and the fade are kept in, and the range they
  stay in.
\<close>

definition fadeCtl :: "Device \<Rightarrow> byte \<times> fadeState \<times> int" where
  "fadeCtl d = (currentBrightness d, fadeState d, fadeStep d)"

definition fadeInv :: "Device \<Rightarrow> bool" where
  "fadeInv d =
     (currentBrightness d \<le> 15 \<and>
      (fadeState d = fadeStateIdle \<or> (0 \<le> fadeStep d \<and> fadeStep d \<le> 15)))"

text \<open>The public operations, for sequences of calls on one device.\<close>

datatype op =
    OpConfigure
  | OpClearAll
  | OpSetDigitOnDisplay int int byte bool
  | OpSetDigit16 int byte bool
  | OpClearOnDisplay int
  | OpClearFadeOnDisplayBlocking int int
  | OpClearAllFadeBlocking int
  | OpWriteString int "rune list"
  | OpDisplay
  | OpLightUpAll
  | OpLightUpAllFadeBlocking int
  | OpDisplayFadeBlocking int
  | OpStartFade int int
  | OpUpdateFade int int
  | OpIsFading
  | OpSetBrightness byte
  | OpSetAddress byte

fun exec :: "Device \<Rightarrow> op \<Rightarrow> Device" where
  "exec d OpConfigure = Configure d"
| "exec d OpClearAll = ClearAll d"
| "exec d (OpSetDigitOnDisplay display position num dot) =
     SetDigitOnDisplay d display position num dot"
| "exec d (OpSetDigit16 position num dot) = SetDigit16 d position num dot"
| "exec d (OpClearOnDisplay display) = ClearOnDisplay d display"
| "exec d (OpClearFadeOnDisplayBlocking display delay) =
     ClearFadeOnDisplayBlocking d display delay"
| "exec d (OpClearAllFadeBlocking delay) = ClearAllFadeBlocking d delay"
| "exec d (OpWriteString display runes) = WriteString d display runes"
| "exec d OpDisplay = Display d"
| "exec d OpLightUpAll = LightUpAll d"
| "exec d (OpLightUpAllFadeBlocking delay) = LightUpAllFadeBlocking d delay"
| "exec d (OpDisplayFadeBlocking delay) = DisplayFadeBlocking d delay"
| "exec d (OpStartFade delay now) = StartFade d delay now"
| "exec d (OpUpdateFade now stamp) = fst (UpdateFade d now stamp)"
| "exec d OpIsFading = d"
| "exec d (OpSetBrightness brightness) = SetBrightness d brightness"
| "exec d (OpSetAddress address) = d\<lparr>Address := address\<rparr>"

definition run :: "Device \<Rightarrow> op list \<Rightarrow> Device" where
  "run d ops = foldl exec d ops"

section \<open>Loops over the rows\<close>

lemma nth_upd: "xs[i := x] ! j = (if i = j \<and> i < length xs then x else xs ! j)"
  by (cases "i < length xs") (auto simp: nth_list_update list_update_beyond)

lemma rows_loop:
  "fold (\<lambda>i b. b[off + i := f i (b ! (off + i))]) [0..<n] buf =
   map (\<lambda>j. if off \<le> j \<and> j < off + n then f (j - off) (buf ! j) else buf ! j)
     [0..<length buf]"
proof (induction n)
  case 0
  show ?case by (rule nth_equalityI) auto
next
  case (Suc n)
  show ?case
    by (rule nth_equalityI) (auto simp: Suc nth_upd)
qed

lemma fill_loop: "fold (\<lambda>i b. b[i := v]) [0..<length buf] buf = replicate (length buf) v"
proof -
  have "fold (\<lambda>i b. b[i := v]) [0..<length buf] buf =
        map (\<lambda>j. if j < length buf then v else buf ! j) [0..<length buf]"
    using rows_loop [where off = 0 and f = "\<lambda>i x. v" and n = "length buf" and buf = buf]
    by simp
  also have "\<dots> = replicate (length buf) v"
    by (rule nth_equalityI) auto
  finally show ?thesis .
qed

lemma cond_update:
  "(if c then b[k := g (b ! k)] else b) = b[k := (if c then g (b ! k) else b ! k)]"
  by simp

lemma bit_test: "(drop_bit n (w :: byte) AND 1 = 1) = bit w n"
  by (simp add: and_one_eq bit_iff_odd_drop_bit odd_iff_mod_2_eq_one)

lemma upt_8: "[0..<8] = [0, 1, 2, 3, 4, 5, 6, 7]"
  by (simp add: upt_rec)

lemma upt_7: "[0..<7] = [0, 1, 2, 3, 4, 5, 6]"
  by (simp add: upt_rec)

lemma replicate_16: "replicate 16 x = [x, x, x, x, x, x, x, x, x, x, x, x, x, x, x, x]"
  by (simp add: eval_nat_numeral)

text \<open>\<open>storeRows\<close> row by row.\<close>

lemma storeRows_map:
  "storeRows buf off position pattern dot =
     map (\<lambda>j. if off \<le> j \<and> j < off + 8
              then rowval position pattern dot (j - off) (buf ! j) else buf ! j)
       [0..<length buf]"
  unfolding storeRows_def Let_def bit_test
  apply (simp only: cond_update [where g = "\<lambda>x. x OR push_bit position 1"])
  apply (simp only: rows_loop [where f = "\<lambda>i x. x AND NOT (push_bit position 1)"]
      rows_loop [where f = "\<lambda>seg x. if bit pattern seg then x OR push_bit position 1 else x"])
  apply (rule nth_equalityI)
   apply (auto simp: rowval_def nth_upd)
  done

lemma length_storeRows [simp]: "length (storeRows buf off position pattern dot) = length buf"
  by (simp add: storeRows_map)

lemma rowval_idem:
  "rowval p pat dot k (rowval p pat dot k x) = rowval p pat dot k x"
  by (auto simp: rowval_def intro!: bit_eqI simp: bit_simps)

lemma storeRows_idem:
  "storeRows (storeRows buf off p pat dot) off p pat dot = storeRows buf off p pat dot"
  by (rule nth_equalityI) (auto simp: storeRows_map rowval_idem)

section \<open>What the bus operations leave in the device\<close>

lemma SetBrightness_fields [simp]:
  "currentBrightness (SetBrightness d level) = min level 15"
  "sent (bus (SetBrightness d level)) = sent (bus d) @ [brightnessCmd (Address d) level]"
  "reply (bus (SetBrightness d level)) = reply (bus d)"
  "Address (SetBrightness d level) = Address d"
  "buffer (SetBrightness d level) = buffer d"
  "fadeState (SetBrightness d level) = fadeState d"
  "fadeStep (SetBrightness d level) = fadeStep d"
  "lastUpdateTime (SetBrightness d level) = lastUpdateTime d"
  "fadeDelay (SetBrightness d level) = fadeDelay d"
  by (auto simp: SetBrightness_def Tx_def Let_def brightnessCmd_def min_def)

lemma Display_fields [simp]:
  "currentBrightness (Display d) = currentBrightness d"
  "sent (bus (Display d)) = sent (bus d) @ [flushCmd (Address d) (buffer d)]"
  "reply (bus (Display d)) = reply (bus d)"
  "Address (Display d) = Address d"
  "buffer (Display d) = buffer d"
  "fadeState (Display d) = fadeState d"
  "fadeStep (Display d) = fadeStep d"
  "lastUpdateTime (Display d) = lastUpdateTime d"
  "fadeDelay (Display d) = fadeDelay d"
  by (auto simp: Display_def Tx_def Let_def flushCmd_def)

lemma LightUpAll_fields [simp]:
  "buffer (LightUpAll d) = replicate (length (buffer d)) 0xFF"
  "bus (LightUpAll d) = bus d"
  "Address (LightUpAll d) = Address d"
  "currentBrightness (LightUpAll d) = currentBrightness d"
  "fadeState (LightUpAll d) = fadeState d"
  "fadeStep (LightUpAll d) = fadeStep d"
  by (simp_all add: LightUpAll_def fill_loop)

lemma ClearAll_fields [simp]:
  "buffer (ClearAll d) = replicate (length (buffer d)) 0"
  "bus (ClearAll d) = bus d"
  "Address (ClearAll d) = Address d"
  "currentBrightness (ClearAll d) = currentBrightness d"
  "fadeState (ClearAll d) = fadeState d"
  "fadeStep (ClearAll d) = fadeStep d"
  by (simp_all add: ClearAll_def fill_loop)

section \<open>The buffer codec\<close>

text \<open>
  Claim C2. For every display in {0, 1}, position in 0..7, pattern in 0..127,
  dot flag and starting device (so every starting buffer), \<open>setPattern\<close> called
  twice with the same arguments leaves the same device as \<open>setPattern\<close> called
  once.
\<close>

theorem setPattern_idempotent:
  assumes "display = 0 \<or> display = 1"
    and "0 \<le> position" and "position \<le> 7"
    and "pattern \<le> 127"
  shows "setPattern (setPattern d display position pattern dot) display position pattern dot
           = setPattern d display position pattern dot"
  by (simp add: setPattern_def storeRows_idem)

theorem setPattern_idempotent_witness:
  "((1::int) = 0 \<or> (1::int) = 1) \<and> (0::int) \<le> 3 \<and> (3::int) \<le> 7 \<and> (0x5B::byte) \<le> 127 \<and>
   setPattern (setPattern (LightUpAll (New goodBus 0x70)) 1 3 0x5B True) 1 3 0x5B True
     = setPattern (LightUpAll (New goodBus 0x70)) 1 3 0x5B True"
  using setPattern_idempotent [of 1 3 "0x5B" "LightUpAll (New goodBus 0x70)" True]
  by simp

text \<open>
  Claim C3. For every position16 in 0..15, every third argument, dot flag and
  starting device, \<open>SetDigit16\<close> leaves the same device as \<open>SetDigitOnDisplay\<close>
  at display position16 / 8 and position position16 % 8 with the same
  arguments. The third argument is the number to draw; in terms of the pattern
  the font gives for it, both equal \<open>setPattern\<close> at that display and position.
\<close>

theorem SetDigit16_remap:
  assumes "0 \<le> position16" and "position16 \<le> 15"
  shows "SetDigit16 d position16 num dot =
           SetDigitOnDisplay d (position16 sdiv 8) (position16 smod 8) num dot \<and>
         SetDigit16 d position16 num dot =
           setPattern d (position16 sdiv 8) (position16 smod 8) (digitPattern num) dot"
  using assms
  by (simp add: SetDigit16_def SetDigitOnDisplay_def setPattern_def digitPattern_def
      MaxDigitsPerDisplay_def NumDisplays_def Let_def)

theorem SetDigit16_remap_witness:
  "(0::int) \<le> 9 \<and> (9::int) \<le> 15 \<and>
   SetDigit16 (New goodBus 0x70) 9 2 True = SetDigitOnDisplay (New goodBus 0x70) 1 1 2 True \<and>
   SetDigit16 (New goodBus 0x70) 9 2 True = setPattern (New goodBus 0x70) 1 1 0x5B True"
  using SetDigit16_remap [of 9 "New goodBus 0x70" 2 True]
  by (auto simp: digitPattern_def font_def signed_divide_int_def signed_modulo_int_def)

text \<open>
  Claim C4. For every position16 outside 0..15, \<open>SetDigit16\<close> returns the device
  it was given, and for every display outside {0, 1} or position outside 0..7,
  so do \<open>setPattern\<close> and \<open>SetDigitOnDisplay\<close>: nothing is changed, and the
  functions have no other result.
\<close>

theorem out_of_range_noop:
  "(position16 < 0 \<or> position16 > 15 \<longrightarrow> SetDigit16 d position16 num dot = d) \<and>
   (display < 0 \<or> display > 1 \<or> position < 0 \<or> position > 7 \<longrightarrow>
      setPattern d display position pattern dot = d \<and>
      SetDigitOnDisplay d display position num dot = d)"
  by (auto simp: SetDigit16_def SetDigitOnDisplay_def setPattern_def
      MaxDigitsPerDisplay_def NumDisplays_def)

theorem out_of_range_noop_witness:
  "SetDigit16 (New goodBus 0x70) 16 8 True = New goodBus 0x70 \<and>
   setPattern (New goodBus 0x70) 2 0 0x7F True = New goodBus 0x70 \<and>
   SetDigitOnDisplay (New goodBus 0x70) 2 0 8 True = New goodBus 0x70"
  using out_of_range_noop [of 16 "New goodBus 0x70" 8 True 2 0 "0x7F"]
  by simp

text \<open>
  Claim C5. On a fresh device, \<open>WriteString(0, "1.")\<close> followed by
  \<open>WriteString(1, "2")\<close> leaves the buffer
  [0,1,1,0,0,0,0,1, 1,1,0,1,1,0,1,0].
\<close>

theorem WriteString_regression:
  "buffer (WriteString (WriteString (New b a) 0 (asciiRunes ''1.'')) 1 (asciiRunes ''2'')) =
     [0, 1, 1, 0, 0, 0, 0, 1, 1, 1, 0, 1, 1, 0, 1, 0]"
  by (simp add: WriteString_def ClearOnDisplay_def SetDigitOnDisplay_def New_def
      NumDisplays_def MaxDigitsPerDisplay_def blankPatternIndex_def font_def storeRows_def
      writeLoop.simps setPattern_def Let_def upt_8 upt_7 replicate_16 asciiRunes_def)

text \<open>
  Claim C7. \<open>LightUpAll\<close> leaves a buffer of sixteen bytes 0xFF, and \<open>Display\<close>
  after it hands the bus one write of 17 bytes: 0x00, then sixteen 0xFF.
\<close>

theorem LightUpAll_Display:
  assumes "length (buffer d) = 16"
  shows "buffer (LightUpAll d) =
           [0xFF, 0xFF, 0xFF, 0xFF, 0xFF, 0xFF, 0xFF, 0xFF,
            0xFF, 0xFF, 0xFF, 0xFF, 0xFF, 0xFF, 0xFF, 0xFF] \<and>
         sent (bus (Display (LightUpAll d))) =
           sent (bus d) @
           [(ucast (Address d),
             [0x00, 0xFF, 0xFF, 0xFF, 0xFF, 0xFF, 0xFF, 0xFF, 0xFF,
              0xFF, 0xFF, 0xFF, 0xFF, 0xFF, 0xFF, 0xFF, 0xFF])]"
  using assms by (simp add: replicate_16 flushCmd_def)

theorem LightUpAll_Display_witness:
  "length (buffer (New goodBus 0x70)) = 16 \<and>
   buffer (LightUpAll (New goodBus 0x70)) =
           [0xFF, 0xFF, 0xFF, 0xFF, 0xFF, 0xFF, 0xFF, 0xFF,
            0xFF, 0xFF, 0xFF, 0xFF, 0xFF, 0xFF, 0xFF, 0xFF] \<and>
   sent (bus (Display (LightUpAll (New goodBus 0x70)))) =
           [(0x70,
             [0x00, 0xFF, 0xFF, 0xFF, 0xFF, 0xFF, 0xFF, 0xFF, 0xFF,
              0xFF, 0xFF, 0xFF, 0xFF, 0xFF, 0xFF, 0xFF, 0xFF])]"
proof -
  have len: "length (buffer (New goodBus 0x70)) = 16"
    by (simp add: New_def)
  have "sent (bus (New goodBus 0x70)) = []" and "Address (New goodBus 0x70) = 0x70"
    by (simp_all add: New_def goodBus_def)
  with LightUpAll_Display [OF len] len show ?thesis
    by (simp add: replicate_16 flushCmd_def)
qed

text \<open>
  Claim C8. For every level, \<open>SetBrightness\<close> stores the level clamped to 0..15
  (above 15 it stores 15) and sends one write of one byte, the brightness
  command 0xE0 OR the clamped level; \<open>SetBrightness(20)\<close> stores 15 and
  \<open>SetBrightness(0)\<close> sends 0xE0 OR 0.
\<close>

theorem SetBrightness_clamps:
  "currentBrightness (SetBrightness d level) = min level 15 \<and>
   currentBrightness (SetBrightness d level) \<le> 15 \<and>
   sent (bus (SetBrightness d level)) =
     sent (bus d) @ [(ucast (Address d), [ht16k33SetBrightness OR min level 15])] \<and>
   currentBrightness (SetBrightness d 20) = 15 \<and>
   sent (bus (SetBrightness d 0)) =
     sent (bus d) @ [(ucast (Address d), [ht16k33SetBrightness OR 0])]"
  by (auto simp: SetBrightness_def Tx_def Let_def min_def)

section \<open>The non-blocking fade\<close>

lemma updates_append: "updates d (xs @ ys) = updates (updates d xs) ys"
  by (induction xs arbitrary: d) auto

lemma updates_idle: "fadeState d = fadeStateIdle \<Longrightarrow> updates d ticks = d"
  by (induction ticks) (auto simp: UpdateFade_def)

lemma spaced_append:
  "spaced delay prev (xs @ ys) =
     (spaced delay prev xs \<and> spaced delay (if xs = [] then prev else snd (last xs)) ys)"
  by (induction xs arbitrary: prev) auto

lemma tick_out_more:
  assumes "fadeState d = fadeStateOut" and "fadeStep d = int (Suc n)"
    and "now - lastUpdateTime d \<ge> fadeDelay d"
  shows "fst (UpdateFade d now stamp) =
           (SetBrightness (d\<lparr>lastUpdateTime := stamp\<rparr>) (of_nat (Suc n)))\<lparr>fadeStep := int n\<rparr>"
  using assms by (simp add: UpdateFade_def Let_def)

lemma tick_out_last:
  assumes "fadeState d = fadeStateOut" and "fadeStep d = 0"
    and "now - lastUpdateTime d \<ge> fadeDelay d"
  shows "fst (UpdateFade d now stamp) =
           (Display (SetBrightness (d\<lparr>lastUpdateTime := stamp\<rparr>) 0))
             \<lparr>fadeState := fadeStateIn, fadeStep := 0\<rparr>"
  using assms by (simp add: UpdateFade_def Let_def)

lemma tick_in_more:
  assumes "fadeState d = fadeStateIn" and "fadeStep d = int k" and "k < 15"
    and "now - lastUpdateTime d \<ge> fadeDelay d"
  shows "fst (UpdateFade d now stamp) =
           (SetBrightness (d\<lparr>lastUpdateTime := stamp\<rparr>) (of_nat k))\<lparr>fadeStep := int (Suc k)\<rparr>"
  using assms by (simp add: UpdateFade_def Let_def)

lemma tick_in_last:
  assumes "fadeState d = fadeStateIn" and "fadeStep d = 15"
    and "now - lastUpdateTime d \<ge> fadeDelay d"
  shows "fst (UpdateFade d now stamp) =
           (SetBrightness (d\<lparr>lastUpdateTime := stamp\<rparr>) 15)
             \<lparr>fadeStep := 16, fadeState := fadeStateIdle\<rparr>"
  using assms by (simp add: UpdateFade_def Let_def)

lemma brightnessWrites_simps [simp]:
  "brightnessWrites a [] = []"
  "brightnessWrites a (k # ks) = brightnessCmd a (of_nat k) # brightnessWrites a ks"
  "brightnessWrites a (ks @ ls) = brightnessWrites a ks @ brightnessWrites a ls"
  by (simp_all add: brightnessWrites_def)

lemma out_steps:
  assumes "fadeState d = fadeStateOut" and "fadeStep d = int n"
    and "spaced (fadeDelay d) (lastUpdateTime d) ticks"
    and "length ticks \<le> n"
  shows "fadeState (updates d ticks) = fadeStateOut \<and>
         fadeStep (updates d ticks) = int (n - length ticks) \<and>
         sent (bus (updates d ticks)) =
           sent (bus d) @ brightnessWrites (Address d) (rev [Suc n - length ticks..<Suc n]) \<and>
         reply (bus (updates d ticks)) = reply (bus d) \<and>
         Address (updates d ticks) = Address d \<and>
         buffer (updates d ticks) = buffer d \<and>
         fadeDelay (updates d ticks) = fadeDelay d \<and>
         lastUpdateTime (updates d ticks) =
           (if ticks = [] then lastUpdateTime d else snd (last ticks))"
  using assms
proof (induction ticks arbitrary: d n)
  case Nil
  then show ?case by simp
next
  case (Cons t ts)
  obtain now stamp where t: "t = (now, stamp)" by (cases t)
  from Cons.prems obtain m where n: "n = Suc m" by (cases n) auto
  let ?d1 = "fst (UpdateFade d now stamp)"
  have elapsed: "now - lastUpdateTime d \<ge> fadeDelay d"
    and rest: "spaced (fadeDelay d) stamp ts"
    using Cons.prems t by auto
  have d1: "?d1 = (SetBrightness (d\<lparr>lastUpdateTime := stamp\<rparr>) (of_nat (Suc m)))
                    \<lparr>fadeStep := int m\<rparr>"
    using Cons.prems(1,2) elapsed n by (intro tick_out_more) auto
  have ih: "fadeState (updates ?d1 ts) = fadeStateOut \<and>
         fadeStep (updates ?d1 ts) = int (m - length ts) \<and>
         sent (bus (updates ?d1 ts)) =
           sent (bus ?d1) @ brightnessWrites (Address ?d1) (rev [Suc m - length ts..<Suc m]) \<and>
         reply (bus (updates ?d1 ts)) = reply (bus ?d1) \<and>
         Address (updates ?d1 ts) = Address ?d1 \<and>
         buffer (updates ?d1 ts) = buffer ?d1 \<and>
         fadeDelay (updates ?d1 ts) = fadeDelay ?d1 \<and>
         lastUpdateTime (updates ?d1 ts) =
           (if ts = [] then lastUpdateTime ?d1 else snd (last ts))"
    using Cons.prems(1,4) rest n by (intro Cons.IH) (auto simp: d1)
  have le: "Suc m - length ts \<le> Suc m" by simp
  have upt: "[Suc m - length ts..<Suc (Suc m)] = [Suc m - length ts..<Suc m] @ [Suc m]"
    using le by simp
  show ?case
    using ih by (simp add: t n d1 upt)
qed

lemma out_phase:
  assumes "fadeState d = fadeStateOut" and "fadeStep d = int n"
    and "spaced (fadeDelay d) (lastUpdateTime d) ticks"
    and "length ticks = Suc n"
  shows "fadeState (updates d ticks) = fadeStateIn \<and>
         fadeStep (updates d ticks) = 0 \<and>
         sent (bus (updates d ticks)) =
           sent (bus d) @ brightnessWrites (Address d) (rev [0..<Suc n]) @
           [flushCmd (Address d) (buffer d)] \<and>
         reply (bus (updates d ticks)) = reply (bus d) \<and>
         Address (updates d ticks) = Address d \<and>
         buffer (updates d ticks) = buffer d \<and>
         fadeDelay (updates d ticks) = fadeDelay d \<and>
         lastUpdateTime (updates d ticks) = snd (last ticks)"
proof -
  obtain ts t where ticks: "ticks = ts @ [t]" and len: "length ts = n"
    using assms(4) by (metis length_Suc_conv_rev)
  obtain now stamp where t: "t = (now, stamp)" by (cases t)
  let ?d1 = "updates d ts"
  have sp: "spaced (fadeDelay d) (lastUpdateTime d) ts"
    and el: "now - (if ts = [] then lastUpdateTime d else snd (last ts)) \<ge> fadeDelay d"
    using assms(3) by (auto simp: ticks t spaced_append)
  have st: "fadeState ?d1 = fadeStateOut \<and>
         fadeStep ?d1 = int (n - length ts) \<and>
         sent (bus ?d1) =
           sent (bus d) @ brightnessWrites (Address d) (rev [Suc n - length ts..<Suc n]) \<and>
         reply (bus ?d1) = reply (bus d) \<and>
         Address ?d1 = Address d \<and>
         buffer ?d1 = buffer d \<and>
         fadeDelay ?d1 = fadeDelay d \<and>
         lastUpdateTime ?d1 = (if ts = [] then lastUpdateTime d else snd (last ts))"
    using assms(1,2) sp len by (intro out_steps) auto
  have last: "fst (UpdateFade ?d1 now stamp) =
           (Display (SetBrightness (?d1\<lparr>lastUpdateTime := stamp\<rparr>) 0))
             \<lparr>fadeState := fadeStateIn, fadeStep := 0\<rparr>"
    using st el len by (intro tick_out_last) auto
  have zero: "[Suc 0..<Suc n] = map Suc [0..<n]"
    by (simp add: map_Suc_upt)
  have upt: "rev [0..<Suc n] = rev [Suc 0..<Suc n] @ [0]"
    by (simp add: upt_conv_Cons del: upt_Suc)
  show ?thesis
    using st len by (simp add: ticks t updates_append last upt del: upt_Suc)
qed

lemma in_phase:
  assumes "fadeState d = fadeStateIn" and "fadeStep d = int k" and "k \<le> 15"
    and "spaced (fadeDelay d) (lastUpdateTime d) ticks"
    and "length ticks = 16 - k"
  shows "fadeState (updates d ticks) = fadeStateIdle \<and>
         currentBrightness (updates d ticks) = 15 \<and>
         sent (bus (updates d ticks)) =
           sent (bus d) @ brightnessWrites (Address d) [k..<16] \<and>
         reply (bus (updates d ticks)) = reply (bus d) \<and>
         Address (updates d ticks) = Address d \<and>
         buffer (updates d ticks) = buffer d"
  using assms
proof (induction ticks arbitrary: d k)
  case Nil
  then show ?case by simp
next
  case (Cons t ts)
  obtain now stamp where t: "t = (now, stamp)" by (cases t)
  let ?d1 = "fst (UpdateFade d now stamp)"
  have elapsed: "now - lastUpdateTime d \<ge> fadeDelay d"
    and rest: "spaced (fadeDelay d) stamp ts"
    using Cons.prems t by auto
  show ?case
  proof (cases "k = 15")
    case True
    have d1: "?d1 = (SetBrightness (d\<lparr>lastUpdateTime := stamp\<rparr>) 15)
             \<lparr>fadeStep := 16, fadeState := fadeStateIdle\<rparr>"
      using Cons.prems(1,2) elapsed True by (intro tick_in_last) auto
    have "ts = []" using Cons.prems(5) True by simp
    then show ?thesis
      by (simp add: t d1 True upt_conv_Cons)
  next
    case False
    then have k: "k < 15" using Cons.prems(3) by simp
    have d1: "?d1 = (SetBrightness (d\<lparr>lastUpdateTime := stamp\<rparr>) (of_nat k))
                      \<lparr>fadeStep := int (Suc k)\<rparr>"
      using Cons.prems(1,2) elapsed k by (intro tick_in_more) auto
    have ih: "fadeState (updates ?d1 ts) = fadeStateIdle \<and>
         currentBrightness (updates ?d1 ts) = 15 \<and>
         sent (bus (updates ?d1 ts)) =
           sent (bus ?d1) @ brightnessWrites (Address ?d1) [Suc k..<16] \<and>
         reply (bus (updates ?d1 ts)) = reply (bus ?d1) \<and>
         Address (updates ?d1 ts) = Address ?d1 \<and>
         buffer (updates ?d1 ts) = buffer ?d1"
      using Cons.prems(1,5) rest k by (intro Cons.IH) (auto simp: d1)
    have upt: "[k..<16] = k # [Suc k..<16]"
      using k by (simp add: upt_conv_Cons)
    show ?thesis
      using ih by (simp add: t d1 upt)
  qed
qed

lemma isDisplayWrite_simps [simp]:
  "isDisplayWrite (flushCmd a buf)"
  "\<not> isDisplayWrite (brightnessCmd a level)"
  by (simp_all add: isDisplayWrite_def flushCmd_def brightnessCmd_def ht16k33SetBrightness_def
      or_eq_0_iff)

lemma no_display_in_brightnessWrites [simp]:
  "filter isDisplayWrite (brightnessWrites a ks) = []"
  by (induction ks) auto

lemma StartFade_idle:
  assumes "fadeState d = fadeStateIdle"
  shows "fadeState (StartFade d delay start) = fadeStateOut"
    and "fadeStep (StartFade d delay start) = int (unat (currentBrightness d))"
    and "fadeDelay (StartFade d delay start) = delay"
    and "lastUpdateTime (StartFade d delay start) = start"
    and "bus (StartFade d delay start) = bus d"
    and "Address (StartFade d delay start) = Address d"
    and "buffer (StartFade d delay start) = buffer d"
  using assms by (simp_all add: StartFade_def)

lemma spaced_take: "spaced delay prev ticks \<Longrightarrow> spaced delay prev (take n ticks)"
  by (metis append_take_drop_id spaced_append)

text \<open>
  Claim C6. From an idle device, \<open>StartFade\<close> followed by \<open>UpdateFade\<close> calls,
  each finding at least the delay elapsed, ends idle with the stored brightness
  15. With \<open>b\<close> the brightness at the start, the fade takes \<open>b + 17\<close> such
  calls (later ones change nothing) and sends \<open>b + 1\<close> brightness writes
  (levels \<open>b\<close> down to 0), then the one buffer write of \<open>Display\<close>, then 16
  brightness writes (levels 0 to 15). The buffer write is made by the call that
  takes the step counter below 0 and the state from fading out to fading in:
  after \<open>b\<close> calls the device is still fading out and no buffer write was sent;
  after \<open>b + 1\<close> calls it is fading in at step 0 and the buffer write is the
  last write sent.
\<close>

theorem full_fade:
  assumes "fadeState d = fadeStateIdle"
    and "spaced delay start ticks"
    and "length ticks \<ge> unat (currentBrightness d) + 17"
  shows "fadeState (updates (StartFade d delay start) ticks) = fadeStateIdle \<and>
         currentBrightness (updates (StartFade d delay start) ticks) = 15 \<and>
         sent (bus (updates (StartFade d delay start) ticks)) =
           sent (bus d) @
           brightnessWrites (Address d) (rev [0..<Suc (unat (currentBrightness d))]) @
           [flushCmd (Address d) (buffer d)] @
           brightnessWrites (Address d) [0..<16] \<and>
         length (filter isDisplayWrite
           (drop (length (sent (bus d)))
              (sent (bus (updates (StartFade d delay start) ticks))))) = 1 \<and>
         fadeState (updates (StartFade d delay start)
           (take (unat (currentBrightness d)) ticks)) = fadeStateOut \<and>
         filter isDisplayWrite
           (drop (length (sent (bus d)))
              (sent (bus (updates (StartFade d delay start)
                 (take (unat (currentBrightness d)) ticks))))) = [] \<and>
         fadeState (updates (StartFade d delay start)
           (take (Suc (unat (currentBrightness d))) ticks)) = fadeStateIn \<and>
         fadeStep (updates (StartFade d delay start)
           (take (Suc (unat (currentBrightness d))) ticks)) = 0 \<and>
         last (sent (bus (updates (StartFade d delay start)
           (take (Suc (unat (currentBrightness d))) ticks)))) =
           flushCmd (Address d) (buffer d)"
proof -
  let ?b = "unat (currentBrightness d)"
  let ?d0 = "StartFade d delay start"
  let ?out = "take (Suc ?b) ticks"
  let ?in = "take 16 (drop (Suc ?b) ticks)"
  let ?rest = "drop 16 (drop (Suc ?b) ticks)"
  note s0 = StartFade_idle [OF assms(1), of delay start]
  have split: "ticks = ?out @ ?in @ ?rest"
    by (simp only: append_take_drop_id)
  have sp0: "spaced (fadeDelay ?d0) (lastUpdateTime ?d0) ticks"
    using assms(2) by (simp add: s0)
  have len_out: "length ?out = Suc ?b" and len_in: "length ?in = 16 - 0"
    using assms(3) by auto
  have sp_out: "spaced (fadeDelay ?d0) (lastUpdateTime ?d0) ?out"
    using sp0 by (rule spaced_take)
  have before: "fadeState (updates ?d0 (take ?b ticks)) = fadeStateOut \<and>
         fadeStep (updates ?d0 (take ?b ticks)) = int (?b - length (take ?b ticks)) \<and>
         sent (bus (updates ?d0 (take ?b ticks))) =
           sent (bus ?d0) @ brightnessWrites (Address ?d0)
             (rev [Suc ?b - length (take ?b ticks)..<Suc ?b]) \<and>
         reply (bus (updates ?d0 (take ?b ticks))) = reply (bus ?d0) \<and>
         Address (updates ?d0 (take ?b ticks)) = Address ?d0 \<and>
         buffer (updates ?d0 (take ?b ticks)) = buffer ?d0 \<and>
         fadeDelay (updates ?d0 (take ?b ticks)) = fadeDelay ?d0 \<and>
         lastUpdateTime (updates ?d0 (take ?b ticks)) =
           (if take ?b ticks = [] then lastUpdateTime ?d0 else snd (last (take ?b ticks)))"
    using sp0 by (intro out_steps spaced_take) (simp_all add: s0)
  have out: "fadeState (updates ?d0 ?out) = fadeStateIn \<and>
         fadeStep (updates ?d0 ?out) = 0 \<and>
         sent (bus (updates ?d0 ?out)) =
           sent (bus ?d0) @ brightnessWrites (Address ?d0) (rev [0..<Suc ?b]) @
           [flushCmd (Address ?d0) (buffer ?d0)] \<and>
         reply (bus (updates ?d0 ?out)) = reply (bus ?d0) \<and>
         Address (updates ?d0 ?out) = Address ?d0 \<and>
         buffer (updates ?d0 ?out) = buffer ?d0 \<and>
         fadeDelay (updates ?d0 ?out) = fadeDelay ?d0 \<and>
         lastUpdateTime (updates ?d0 ?out) = snd (last ?out)"
    using sp_out len_out by (intro out_phase) (simp_all add: s0)
  have "spaced (fadeDelay ?d0) (lastUpdateTime ?d0) (?out @ ?in @ ?rest)"
    using sp0 by (simp only: append_take_drop_id)
  moreover have "ticks \<noteq> []"
    using assms(3) by auto
  ultimately have "spaced (fadeDelay ?d0) (snd (last ?out)) (?in @ ?rest)"
    by (auto simp: spaced_append simp del: append_take_drop_id)
  then have sp_in: "spaced (fadeDelay (updates ?d0 ?out)) (lastUpdateTime (updates ?d0 ?out)) ?in"
    using out by (auto simp: spaced_append simp del: append_take_drop_id)
  have inn: "fadeState (updates (updates ?d0 ?out) ?in) = fadeStateIdle \<and>
         currentBrightness (updates (updates ?d0 ?out) ?in) = 15 \<and>
         sent (bus (updates (updates ?d0 ?out) ?in)) =
           sent (bus (updates ?d0 ?out)) @ brightnessWrites (Address (updates ?d0 ?out)) [0..<16] \<and>
         reply (bus (updates (updates ?d0 ?out) ?in)) = reply (bus (updates ?d0 ?out)) \<and>
         Address (updates (updates ?d0 ?out) ?in) = Address (updates ?d0 ?out) \<and>
         buffer (updates (updates ?d0 ?out) ?in) = buffer (updates ?d0 ?out)"
    using sp_in len_in out by (intro in_phase) simp_all
  have "updates ?d0 ticks = updates (updates (updates ?d0 ?out) ?in) ?rest"
    by (subst split) (simp only: updates_append)
  also have "\<dots> = updates (updates ?d0 ?out) ?in"
    using inn by (intro updates_idle) simp
  finally have all: "updates ?d0 ticks = updates (updates ?d0 ?out) ?in" .
  show ?thesis
    using before out inn by (simp add: all s0 del: upt_Suc)
qed

theorem full_fade_witness:
  "fadeState (New goodBus 0x70) = fadeStateIdle \<and>
   spaced 20 0 (map (\<lambda>k. (int k * 25, int k * 25 + 1)) [1..<33]) \<and>
   length (map (\<lambda>k. (int k * 25, int k * 25 + 1)) [1..<33])
     \<ge> unat (currentBrightness (New goodBus 0x70)) + 17 \<and>
   fadeState (updates (StartFade (New goodBus 0x70) 20 0)
     (map (\<lambda>k. (int k * 25, int k * 25 + 1)) [1..<33])) = fadeStateIdle \<and>
   currentBrightness (updates (StartFade (New goodBus 0x70) 20 0)
     (map (\<lambda>k. (int k * 25, int k * 25 + 1)) [1..<33])) = 15 \<and>
   length (filter isDisplayWrite
     (sent (bus (updates (StartFade (New goodBus 0x70) 20 0)
        (map (\<lambda>k. (int k * 25, int k * 25 + 1)) [1..<33]))))) = 1"
proof -
  let ?d = "New goodBus 0x70"
  let ?ticks = "map (\<lambda>k. (int k * 25, int k * 25 + 1)) [1..<33]"
  have idle: "fadeState ?d = fadeStateIdle"
    by (simp add: New_def)
  have sp: "spaced 20 0 ?ticks"
    by code_simp
  have b: "unat (currentBrightness ?d) = 15" and s: "sent (bus ?d) = []"
    by (simp_all add: New_def goodBus_def)
  have len: "length ?ticks \<ge> unat (currentBrightness ?d) + 17"
    by (simp add: b)
  from full_fade [OF idle sp len] idle sp len show ?thesis
    by (simp add: s del: upt_Suc)
qed

section \<open>The blocking fade\<close>

lemma fadeOutLoop_neg: "i < 0 \<Longrightarrow> fadeOutLoop d i = d"
  by (simp add: fadeOutLoop.simps)

lemma fadeOutLoop_nat:
  "fadeOutLoop d (int n) = fadeOutLoop (SetBrightness d (of_nat n)) (int n - 1)"
  by (subst fadeOutLoop.simps) simp

lemma fadeOutLoop_log:
  "sent (bus (fadeOutLoop d (int n))) =
     sent (bus d) @ brightnessWrites (Address d) (rev [0..<Suc n]) \<and>
   reply (bus (fadeOutLoop d (int n))) = reply (bus d) \<and>
   currentBrightness (fadeOutLoop d (int n)) = 0 \<and>
   Address (fadeOutLoop d (int n)) = Address d \<and>
   buffer (fadeOutLoop d (int n)) = buffer d \<and>
   fadeState (fadeOutLoop d (int n)) = fadeState d \<and>
   fadeStep (fadeOutLoop d (int n)) = fadeStep d \<and>
   lastUpdateTime (fadeOutLoop d (int n)) = lastUpdateTime d \<and>
   fadeDelay (fadeOutLoop d (int n)) = fadeDelay d"
proof (induction n arbitrary: d)
  case 0
  show ?case
    using fadeOutLoop_nat [of d 0] by (simp add: fadeOutLoop_neg)
next
  case (Suc n)
  have step: "fadeOutLoop d (int (Suc n)) =
                fadeOutLoop (SetBrightness d (of_nat (Suc n))) (int n)"
    using fadeOutLoop_nat [of d "Suc n"] by simp
  show ?case
    using Suc.IH [of "SetBrightness d (of_nat (Suc n))"]
    by (simp add: step del: of_nat_Suc)
qed

lemma fadeInLoop_done: "i > 15 \<Longrightarrow> fadeInLoop d i = d"
  by (simp add: fadeInLoop.simps)

lemma fadeInLoop_nat:
  "k \<le> 15 \<Longrightarrow> fadeInLoop d (int k) = fadeInLoop (SetBrightness d (of_nat k)) (int (Suc k))"
  by (subst fadeInLoop.simps) (simp add: add.commute)

lemma fadeInLoop_log:
  "k \<le> 15 \<Longrightarrow> m = 15 - k \<Longrightarrow>
   sent (bus (fadeInLoop d (int k))) = sent (bus d) @ brightnessWrites (Address d) [k..<16] \<and>
   reply (bus (fadeInLoop d (int k))) = reply (bus d) \<and>
   currentBrightness (fadeInLoop d (int k)) = 15 \<and>
   Address (fadeInLoop d (int k)) = Address d \<and>
   buffer (fadeInLoop d (int k)) = buffer d \<and>
   fadeState (fadeInLoop d (int k)) = fadeState d \<and>
   fadeStep (fadeInLoop d (int k)) = fadeStep d \<and>
   lastUpdateTime (fadeInLoop d (int k)) = lastUpdateTime d \<and>
   fadeDelay (fadeInLoop d (int k)) = fadeDelay d"
proof (induction m arbitrary: d k)
  case 0
  then have k: "k = 15" by simp
  show ?case
    using fadeInLoop_nat [of 15 d] by (simp add: k fadeInLoop_done upt_conv_Cons)
next
  case (Suc m)
  then have k: "k < 15" and m: "m = 15 - Suc k" by simp_all
  have upt: "[k..<16] = k # [Suc k..<16]"
    using k by (simp add: upt_conv_Cons)
  show ?case
    using Suc.IH [of "Suc k" "SetBrightness d (of_nat k)"] k m fadeInLoop_nat [of k d]
    by (simp add: upt del: of_nat_Suc)
qed

lemma DisplayFadeBlocking_log:
  "sent (bus (DisplayFadeBlocking d delay)) =
     sent (bus d) @
     brightnessWrites (Address d) (rev [0..<Suc (unat (currentBrightness d))]) @
     [flushCmd (Address d) (buffer d)] @
     brightnessWrites (Address d) [0..<16] @ [brightnessCmd (Address d) 15]"
  "reply (bus (DisplayFadeBlocking d delay)) = reply (bus d)"
  "currentBrightness (DisplayFadeBlocking d delay) = 15"
  "Address (DisplayFadeBlocking d delay) = Address d"
  "buffer (DisplayFadeBlocking d delay) = buffer d"
  "fadeState (DisplayFadeBlocking d delay) = fadeState d"
  "fadeStep (DisplayFadeBlocking d delay) = fadeStep d"
  "lastUpdateTime (DisplayFadeBlocking d delay) = lastUpdateTime d"
  "fadeDelay (DisplayFadeBlocking d delay) = fadeDelay d"
  using fadeOutLoop_log [of d "unat (currentBrightness d)"]
    fadeInLoop_log [of 0 15 "Display (fadeOutLoop d (uint (currentBrightness d)))"]
  by (simp_all add: DisplayFadeBlocking_def Let_def del: upt_Suc)

lemma takeWhile_no_display:
  "takeWhile (\<lambda>t. \<not> isDisplayWrite t) (brightnessWrites a ks @ flushCmd a buf # rest) =
     brightnessWrites a ks"
  by (induction ks) auto

lemma dropWhile_no_display:
  "dropWhile (\<lambda>t. \<not> isDisplayWrite t) (brightnessWrites a ks @ flushCmd a buf # rest) =
     flushCmd a buf # rest"
  by (induction ks) auto

lemma length_brightnessWrites [simp]: "length (brightnessWrites a ks) = length ks"
  by (simp add: brightnessWrites_def)

text \<open>
  Claim C9, as the code has it. For every starting device, \<open>DisplayFadeBlocking\<close>
  sends, in this order: \<open>b + 1\<close> brightness writes for the levels \<open>b\<close> down to
  0, where \<open>b\<close> is the brightness stored at the start (16 writes when it is 15);
  the one buffer write of \<open>Display\<close>; 16 brightness writes for the levels 0 to
  15 and one more brightness write of level 15. It ends with the stored
  brightness 15.
\<close>

theorem DisplayFadeBlocking_writes:
  "sent (bus (DisplayFadeBlocking d delay)) =
     sent (bus d) @ fadeOutWrites d delay @ [flushCmd (Address d) (buffer d)] @
     fadeInWrites d delay \<and>
   fadeOutWrites d delay =
     brightnessWrites (Address d) (rev [0..<Suc (unat (currentBrightness d))]) \<and>
   length (fadeOutWrites d delay) = unat (currentBrightness d) + 1 \<and>
   fadeInWrites d delay =
     brightnessWrites (Address d) [0..<16] @ [brightnessCmd (Address d) 15] \<and>
   length (fadeInWrites d delay) = 17 \<and>
   currentBrightness (DisplayFadeBlocking d delay) = 15"
  by (simp add: fadeOutWrites_def fadeInWrites_def DisplayFadeBlocking_log
      takeWhile_no_display dropWhile_no_display del: upt_Suc)

text \<open>
  Claim C9 as stated fails: started at brightness 5, the fade out sends 6
  brightness writes, not 16.
\<close>

theorem DisplayFadeBlocking_counterexample:
  "length (fadeOutWrites (SetBrightness (New goodBus 0x70) 5) 20) = 6"
  by (simp add: fadeOutWrites_def DisplayFadeBlocking_log
      takeWhile_no_display del: upt_Suc)

section \<open>The brightness stays in range\<close>

lemma fadeCtl_SetBrightness [simp]:
  "fadeCtl (SetBrightness d level) = (min level 15, fadeState d, fadeStep d)"
  by (simp add: fadeCtl_def)

lemma fadeCtl_Display [simp]: "fadeCtl (Display d) = fadeCtl d"
  by (simp add: fadeCtl_def)

lemma fadeCtl_setPattern [simp]:
  "fadeCtl (setPattern d display position pattern dot) = fadeCtl d"
  by (simp add: fadeCtl_def setPattern_def)

lemma fadeCtl_SetDigitOnDisplay [simp]:
  "fadeCtl (SetDigitOnDisplay d display position num dot) = fadeCtl d"
  by (simp add: fadeCtl_def SetDigitOnDisplay_def Let_def)

lemma fadeCtl_SetDigit16 [simp]: "fadeCtl (SetDigit16 d position num dot) = fadeCtl d"
  by (simp add: SetDigit16_def Let_def)

lemma fadeCtl_fold:
  "(\<And>x d. fadeCtl (f x d) = fadeCtl d) \<Longrightarrow> fadeCtl (fold f xs d) = fadeCtl d"
  by (induction xs arbitrary: d) auto

lemma fadeCtl_ClearOnDisplay [simp]: "fadeCtl (ClearOnDisplay d display) = fadeCtl d"
  by (simp add: ClearOnDisplay_def fadeCtl_fold)

lemma fadeCtl_writeLoop [simp]:
  "fadeCtl (writeLoop d display runes i digitPos) = fadeCtl d"
proof (induction d display runes i digitPos rule: writeLoop.induct)
  case (1 d display runes i digitPos)
  show ?case
  proof (cases "i < length runes \<and> digitPos < MaxDigitsPerDisplay")
    case False
    then show ?thesis
      by (subst writeLoop.simps) auto
  next
    case True
    define c where
      "c = (if 97 \<le> runes ! i \<and> runes ! i \<le> 122 then runes ! i - 97 + 65 else runes ! i)"
    show ?thesis
    proof (cases "font c")
      case None
      have "writeLoop d display runes i digitPos = writeLoop d display runes (i + 1) digitPos"
        using True None by (subst writeLoop.simps) (simp add: Let_def c_def)
      with "1.IH"(1) [OF True refl c_def None] show ?thesis
        by simp
    next
      case (Some p)
      show ?thesis
      proof (cases "i + 1 < length runes \<and> runes ! (i + 1) = 46")
        case dot: True
        have "writeLoop d display runes i digitPos =
                writeLoop (setPattern d display digitPos p True) display runes (i + 1 + 1)
                  (digitPos + 1)"
          using True Some dot by (subst writeLoop.simps) (simp add: Let_def c_def)
        with "1.IH"(2) [OF True refl c_def Some dot] show ?thesis
          by simp
      next
        case nodot: False
        have "writeLoop d display runes i digitPos =
                writeLoop (setPattern d display digitPos p False) display runes (i + 1)
                  (digitPos + 1)"
          using True Some nodot by (subst writeLoop.simps) (auto simp: Let_def c_def)
        with "1.IH"(3) [OF True refl c_def Some nodot] show ?thesis
          by simp
      qed
    qed
  qed
qed

lemma fadeCtl_WriteString [simp]: "fadeCtl (WriteString d display runes) = fadeCtl d"
  by (simp add: WriteString_def)

lemma fadeCtl_ClearAll [simp]: "fadeCtl (ClearAll d) = fadeCtl d"
  by (simp add: fadeCtl_def)

lemma fadeCtl_LightUpAll [simp]: "fadeCtl (LightUpAll d) = fadeCtl d"
  by (simp add: fadeCtl_def)

lemma fadeCtl_DisplayFadeBlocking [simp]:
  "fadeCtl (DisplayFadeBlocking d delay) = (15, fadeState d, fadeStep d)"
  by (simp add: fadeCtl_def DisplayFadeBlocking_log)

lemma fadeCtl_LightUpAllFadeBlocking [simp]:
  "fadeCtl (LightUpAllFadeBlocking d delay) = (15, fadeState d, fadeStep d)"
  using fadeInLoop_log [of 0 15 "LightUpAll d"]
  by (simp add: fadeCtl_def LightUpAllFadeBlocking_def)

lemma fadeCtl_Configure [simp]: "fadeCtl (Configure d) = (15, fadeState d, fadeStep d)"
  by (simp add: Configure_def Let_def)

lemma fadeInv_fadeCtl: "fadeCtl d' = fadeCtl d \<Longrightarrow> fadeInv d' = fadeInv d"
  by (simp add: fadeCtl_def fadeInv_def)

lemma fadeInv_set15:
  "fadeCtl d' = (15, fadeState d, fadeStep d) \<Longrightarrow> fadeInv d \<Longrightarrow> fadeInv d'"
  by (simp add: fadeCtl_def fadeInv_def)

lemma byte_le_15: "(b :: byte) \<le> 15 \<Longrightarrow> uint b \<le> 15"
  by (simp add: word_le_def)

lemma fadeInv_StartFade: "fadeInv d \<Longrightarrow> fadeInv (StartFade d delay now)"
  by (auto simp: fadeInv_def StartFade_def byte_le_15)

lemma fadeInv_UpdateFade:
  assumes "fadeInv d"
  shows "fadeInv (fst (UpdateFade d now stamp))"
proof (cases "fadeState d = fadeStateIdle \<or> now - lastUpdateTime d < fadeDelay d")
  case True
  then show ?thesis
    using assms by (simp add: UpdateFade_def)
next
  case False
  then have el: "now - lastUpdateTime d \<ge> fadeDelay d" and act: "fadeState d \<noteq> fadeStateIdle"
    by auto
  from act assms obtain k where k: "fadeStep d = int k" and k15: "k \<le> 15"
    by (auto simp: fadeInv_def intro: that [of "nat (fadeStep d)"])
  show ?thesis
  proof (cases "fadeState d")
    case fadeStateIdle
    with act show ?thesis by simp
  next
    case fadeStateOut
    show ?thesis
    proof (cases k)
      case 0
      with fadeStateOut k el show ?thesis
        by (simp add: tick_out_last fadeInv_def)
    next
      case (Suc n)
      with fadeStateOut k el k15 show ?thesis
        by (simp add: tick_out_more fadeInv_def del: of_nat_Suc)
    qed
  next
    case fadeStateIn
    show ?thesis
    proof (cases "k = 15")
      case True
      with fadeStateIn k el show ?thesis
        by (simp add: tick_in_last fadeInv_def)
    next
      case False
      with k15 have "k < 15" by simp
      with fadeStateIn k el show ?thesis
        by (simp add: tick_in_more fadeInv_def del: of_nat_Suc)
    qed
  qed
qed

lemma fadeInv_buffer_ops [simp]:
  "fadeInv (setPattern d display position pattern dot) = fadeInv d"
  "fadeInv (SetDigitOnDisplay d display position num dot) = fadeInv d"
  "fadeInv (SetDigit16 d position num dot) = fadeInv d"
  "fadeInv (ClearOnDisplay d display) = fadeInv d"
  "fadeInv (WriteString d display runes) = fadeInv d"
  "fadeInv (ClearAll d) = fadeInv d"
  "fadeInv (LightUpAll d) = fadeInv d"
  "fadeInv (Display d) = fadeInv d"
  by (rule fadeInv_fadeCtl, simp)+

lemma fadeInv_bus_ops:
  assumes "fadeInv d"
  shows "fadeInv (SetBrightness d level)"
    and "fadeInv (Configure d)"
    and "fadeInv (DisplayFadeBlocking d delay)"
    and "fadeInv (LightUpAllFadeBlocking d delay)"
proof -
  show "fadeInv (SetBrightness d level)"
    using assms by (simp add: fadeInv_def)
  show "fadeInv (Configure d)"
    by (rule fadeInv_set15 [where d = d]) (simp_all add: assms)
  show "fadeInv (DisplayFadeBlocking d delay)"
    by (rule fadeInv_set15 [where d = d]) (simp_all add: assms)
  show "fadeInv (LightUpAllFadeBlocking d delay)"
    by (rule fadeInv_set15 [where d = d]) (simp_all add: assms)
qed

lemma fadeInv_exec: "fadeInv d \<Longrightarrow> fadeInv (exec d x)"
  by (cases x)
    (simp_all add: fadeInv_bus_ops fadeInv_StartFade fadeInv_UpdateFade
      ClearFadeOnDisplayBlocking_def ClearAllFadeBlocking_def, simp add: fadeInv_def)

lemma fadeInv_New: "fadeInv (New b address)"
  by (simp add: fadeInv_def New_def)

lemma fadeInv_run: "fadeInv d \<Longrightarrow> fadeInv (run d ops)"
  unfolding run_def by (induction ops arbitrary: d) (auto simp: fadeInv_exec)

text \<open>
  Claim C10. For every device made by \<open>New\<close> and every sequence of public
  operations on it, the stored brightness is in 0..15. The fade step is in 0..15
  whenever a fade is running, so \<open>UpdateFade\<close> passes only such values to
  \<open>SetBrightness\<close>.
\<close>

theorem brightness_invariant:
  "currentBrightness (run (New b address) ops) \<le> 15 \<and>
   unat (currentBrightness (run (New b address) ops)) \<le> 15 \<and>
   (fadeState (run (New b address) ops) = fadeStateIdle \<or>
    (0 \<le> fadeStep (run (New b address) ops) \<and> fadeStep (run (New b address) ops) \<le> 15))"
  using fadeInv_run [OF fadeInv_New, of b address ops]
  by (auto simp: fadeInv_def word_le_nat_alt)

section \<open>Errors of the bus\<close>

lemma withReply_fields [simp]:
  "sent (bus (withReply d r)) = sent (bus d)"
  "reply (bus (withReply d r)) = r"
  "Address (withReply d r) = Address d"
  "buffer (withReply d r) = buffer d"
  "currentBrightness (withReply d r) = currentBrightness d"
  "fadeState (withReply d r) = fadeState d"
  "fadeStep (withReply d r) = fadeStep d"
  "lastUpdateTime (withReply d r) = lastUpdateTime d"
  "fadeDelay (withReply d r) = fadeDelay d"
  by (simp_all add: withReply_def)

lemma Configure_fields [simp]:
  "sent (bus (Configure d)) =
     sent (bus d) @
     [(ucast (Address d), [ht16k33TurnOnOscillator]),
      (ucast (Address d), [ht16k33TurnOnDisplay]),
      brightnessCmd (Address d) 15]"
  "reply (bus (Configure d)) = reply (bus d)"
  "currentBrightness (Configure d) = 15"
  "Address (Configure d) = Address d"
  "buffer (Configure d) = buffer d"
  "fadeState (Configure d) = fadeState d"
  "fadeStep (Configure d) = fadeStep d"
  "lastUpdateTime (Configure d) = lastUpdateTime d"
  "fadeDelay (Configure d) = fadeDelay d"
  by (simp_all add: Configure_def Let_def Tx_def)

text \<open>
  Claim C1, as the code has it. \<open>Display\<close> and \<open>SetBrightness\<close> hand the bus one
  write each and \<open>Configure\<close> three, each exactly once whatever the bus
  answers; the answer of \<open>Tx\<close> is dropped: the operations have no result, and
  the writes sent and the device they leave are the same for every way \<open>r\<close>
  the bus may answer.
\<close>

theorem bus_errors_dropped:
  "sent (bus (Display (withReply d r))) =
     sent (bus d) @ [(ucast (Address d), 0x00 # buffer d)] \<and>
   deviceState (Display (withReply d r)) = deviceState d \<and>
   sent (bus (SetBrightness (withReply d r) level)) =
     sent (bus d) @ [(ucast (Address d), [ht16k33SetBrightness OR min level 15])] \<and>
   deviceState (SetBrightness (withReply d r) level) =
     (Address d, buffer d, min level 15, fadeState d, fadeStep d,
      lastUpdateTime d, fadeDelay d) \<and>
   sent (bus (Configure (withReply d r))) =
     sent (bus d) @
     [(ucast (Address d), [ht16k33TurnOnOscillator]),
      (ucast (Address d), [ht16k33TurnOnDisplay]),
      (ucast (Address d), [ht16k33SetBrightness OR 15])] \<and>
   deviceState (Configure (withReply d r)) =
     (Address d, buffer d, 15, fadeState d, fadeStep d, lastUpdateTime d, fadeDelay d)"
  by (simp add: flushCmd_def brightnessCmd_def deviceState_def)

text \<open>
  Claim C1 as stated fails: on a bus whose every write returns an error, each
  of the three operations leaves the device and the writes that it leaves on a
  bus that accepts every write, and returns nothing else, so no error reaches
  the caller.
\<close>

theorem bus_error_counterexample:
  "snd (Tx (bus (New deadBus 0x70)) 0x70 (0x00 # buffer (New deadBus 0x70))) = Some TxError \<and>
   deviceState (Display (New deadBus 0x70)) = deviceState (Display (New goodBus 0x70)) \<and>
   sent (bus (Display (New deadBus 0x70))) = sent (bus (Display (New goodBus 0x70))) \<and>
   snd (Tx (bus (New deadBus 0x70)) 0x70 [ht16k33SetBrightness OR 7]) = Some TxError \<and>
   deviceState (SetBrightness (New deadBus 0x70) 7) =
     deviceState (SetBrightness (New goodBus 0x70) 7) \<and>
   sent (bus (SetBrightness (New deadBus 0x70) 7)) =
     sent (bus (SetBrightness (New goodBus 0x70) 7)) \<and>
   deviceState (Configure (New deadBus 0x70)) = deviceState (Configure (New goodBus 0x70)) \<and>
   sent (bus (Configure (New deadBus 0x70))) = sent (bus (Configure (New goodBus 0x70)))"
  by (simp add: deviceState_def) (simp add: New_def deadBus_def goodBus_def Tx_def)

end
